theory Spec2Isabelle
  imports Main
begin

text \<open>
  A model of the comment section of the learning pages: the normalizer of backend
  payloads (\<^verbatim>\<open>transformComment\<close>, \<^verbatim>\<open>transformCommentsResponse\<close>) and the two
  optimistic mutations of the comment tree (\<^verbatim>\<open>addComment\<close>, \<^verbatim>\<open>toggleCommentLike\<close>) of
  the component \<^verbatim>\<open>Comments\<close>.  An asynchronous handler is a function of the state, the
  environment and the outcome of its one request; the state updaters it queues are applied
  in the order of the calls.  The toggles of likes are also run as a sequence of events,
  clicks and responses in any order, each click being handled by the component as it was
  last rendered.
\<close>

section \<open>JavaScript values\<close>

text \<open>
  The component receives parsed JSON from the backend and keeps what it reads without a
  check, so the fields of a comment hold JavaScript values.  Numbers are the integers (ids,
  counts, page numbers) and \<^verbatim>\<open>NaN\<close>.  An array or an object carries its reference, a
  number that tells it from every other array or object; an object is the association list
  of its own properties, read at the first binding of a key.
\<close>

datatype jsval =
    JUndefined
  | JNull
  | JBool bool
  | JNum int
  | JNaN
  | JStr string
  | JArr nat "jsval list"
  | JObj nat "(string \<times> jsval) list"

text \<open>JavaScript truthiness, as used by \<^verbatim>\<open>!x\<close>, \<^verbatim>\<open>x && y\<close> and \<^verbatim>\<open>x || y\<close>.\<close>

fun truthy :: "jsval \<Rightarrow> bool" where
  "truthy JUndefined = False"
| "truthy JNull = False"
| "truthy (JBool b) = b"
| "truthy (JNum n) = (n \<noteq> 0)"
| "truthy JNaN = False"
| "truthy (JStr s) = (s \<noteq> [])"
| "truthy (JArr r xs) = True"
| "truthy (JObj r kvs) = True"

text \<open>\<^verbatim>\<open>x || y\<close>.\<close>

definition js_or :: "jsval \<Rightarrow> jsval \<Rightarrow> jsval" where
  "js_or x y = (if truthy x then x else y)"

text \<open>
  \<^verbatim>\<open>x === y\<close>: the same primitive value, or the same array or object; \<^verbatim>\<open>NaN\<close> is not
  equal to itself.
\<close>

definition strict_eq :: "jsval \<Rightarrow> jsval \<Rightarrow> bool" where
  "strict_eq x y = (x = y \<and> x \<noteq> JNaN)"

subsection \<open>Exceptions\<close>

text \<open>
  A computation returns a value (\<open>Inr\<close>) or throws (\<open>Inl\<close>): a TypeError when a property
  of \<^verbatim>\<open>null\<close> or \<^verbatim>\<open>undefined\<close> is read, a RangeError when the call stack is exhausted.
\<close>

datatype exn = TypeError | RangeError

definition andThen :: "exn + 'a \<Rightarrow> ('a \<Rightarrow> exn + 'b) \<Rightarrow> exn + 'b" where
  "andThen x f = (case x of Inl e \<Rightarrow> Inl e | Inr v \<Rightarrow> f v)"

lemma andThen_cong [fundef_cong]:
  "x = y \<Longrightarrow> (\<And>v. y = Inr v \<Longrightarrow> f v = g v) \<Longrightarrow> andThen x f = andThen y g"
  by (cases y) (simp_all add: andThen_def)

text \<open>The results of a sequence of computations, up to the first that throws.\<close>

fun collect :: "(exn + 'a) list \<Rightarrow> exn + 'a list" where
  "collect [] = Inr []"
| "collect (x # xs) = andThen x (\<lambda>v. andThen (collect xs) (\<lambda>vs. Inr (v # vs)))"

text \<open>
  Reading a property \<^verbatim>\<open>v.k\<close>.  On \<^verbatim>\<open>null\<close> and \<^verbatim>\<open>undefined\<close> the read throws; on every
  other value it yields the property or \<^verbatim>\<open>undefined\<close>.  Of the keys read by the
  component only \<^verbatim>\<open>length\<close> is a property of an array or a string.
\<close>

fun get_prop :: "jsval \<Rightarrow> string \<Rightarrow> exn + jsval" where
  "get_prop JUndefined k = Inl TypeError"
| "get_prop JNull k = Inl TypeError"
| "get_prop (JObj r kvs) k = Inr (case map_of kvs k of None \<Rightarrow> JUndefined | Some v \<Rightarrow> v)"
| "get_prop (JArr r xs) k = Inr (if k = ''length'' then JNum (int (length xs)) else JUndefined)"
| "get_prop (JStr s) k = Inr (if k = ''length'' then JNum (int (length s)) else JUndefined)"
| "get_prop (JBool b) k = Inr JUndefined"
| "get_prop (JNum n) k = Inr JUndefined"
| "get_prop JNaN k = Inr JUndefined"

text \<open>Optional chaining \<^verbatim>\<open>v?.k\<close>: \<^verbatim>\<open>undefined\<close> instead of the TypeError.\<close>

definition opt_chain :: "jsval \<Rightarrow> string \<Rightarrow> jsval" where
  "opt_chain v k = (case get_prop v k of Inl e \<Rightarrow> JUndefined | Inr x \<Rightarrow> x)"

text \<open>\<^verbatim>\<open>Array.isArray(v)\<close>.\<close>

fun isArray :: "jsval \<Rightarrow> bool" where
  "isArray (JArr r xs) = True"
| "isArray v = False"

subsection \<open>Numbers and strings\<close>

definition is_space :: "char \<Rightarrow> bool" where
  "is_space c = (c \<in> set [CHR '' '', CHR 0x09, CHR 0x0A, CHR 0x0B, CHR 0x0C, CHR 0x0D])"

definition is_digit :: "char \<Rightarrow> bool" where
  "is_digit c = (c \<in> set ''0123456789'')"

definition digit_val :: "char \<Rightarrow> int" where
  "digit_val c = int (of_char c) - 48"

text \<open>\<^verbatim>\<open>parseInt(s, 10)\<close>.\<close>

definition parseInt10 :: "string \<Rightarrow> jsval" where
  "parseInt10 s =
     (let t = dropWhile is_space s;
          neg = (case t of [] \<Rightarrow> False | c # r \<Rightarrow> c = CHR ''-'');
          u = (case t of [] \<Rightarrow> [] | c # r \<Rightarrow> if c = CHR ''-'' \<or> c = CHR ''+'' then r else t);
          ds = takeWhile is_digit u
      in if ds = [] then JNaN
         else JNum ((if neg then - 1 else 1) * foldl (\<lambda>a c. 10 * a + digit_val c) 0 ds))"

text \<open>The decimal digits of a number.\<close>

fun nat_str :: "nat \<Rightarrow> string" where
  "nat_str n =
     (if n < 10 then [char_of (48 + n)] else nat_str (n div 10) @ [char_of (48 + n mod 10)])"

definition int_str :: "int \<Rightarrow> string" where
  "int_str i = (if i < 0 then CHR ''-'' # nat_str (nat (- i)) else nat_str (nat i))"

text \<open>
  The string of a value, as \<^verbatim>\<open>String(v)\<close> and the operator \<^verbatim>\<open>+\<close> make it: an array
  joins the strings of its elements, with nothing for \<^verbatim>\<open>null\<close> and \<^verbatim>\<open>undefined\<close>, an
  object is \<^verbatim>\<open>[object Object]\<close>.  (The conversion of an object that has an own
  property \<^verbatim>\<open>toString\<close> throws; here it is read as any other object.)
\<close>

fun join_comma :: "string list \<Rightarrow> string" where
  "join_comma [] = []"
| "join_comma [s] = s"
| "join_comma (s # t # ss) = s @ '','' @ join_comma (t # ss)"

fun js_string :: "jsval \<Rightarrow> string" where
  "js_string JUndefined = ''undefined''"
| "js_string JNull = ''null''"
| "js_string (JBool b) = (if b then ''true'' else ''false'')"
| "js_string (JNum n) = int_str n"
| "js_string JNaN = ''NaN''"
| "js_string (JStr s) = s"
| "js_string (JArr r xs) =
     join_comma (map (\<lambda>x. if x = JNull \<or> x = JUndefined then [] else js_string x) xs)"
| "js_string (JObj r kvs) = ''[object Object]''"

text \<open>\<^verbatim>\<open>v + d\<close> for a number \<open>d\<close>: a sum of numbers, or a concatenation of strings.\<close>

definition js_add :: "jsval \<Rightarrow> int \<Rightarrow> jsval" where
  "js_add v d =
     (case v of
        JNum n \<Rightarrow> JNum (n + d)
      | JNaN \<Rightarrow> JNaN
      | JUndefined \<Rightarrow> JNaN
      | JNull \<Rightarrow> JNum d
      | JBool b \<Rightarrow> JNum ((if b then 1 else 0) + d)
      | _ \<Rightarrow> JStr (js_string v @ int_str d))"

section \<open>The canonical comment\<close>

text \<open>
  The fields hold what was read or computed, whatever its type; \<open>id_of\<close> is the field
  \<^verbatim>\<open>id\<close>.  An absent \<open>is_optimistic\<close> is an object without that key: the component
  only ever writes a boolean to it.
\<close>

record CommentFields =
  id_of :: jsval
  material_id :: jsval
  user_id :: jsval
  username :: jsval
  parent_id :: jsval
  content :: jsval
  likes_count :: jsval
  created_at :: jsval
  updated_at :: jsval
  is_optimistic :: "bool option"
  is_liked :: jsval
  user_avatar :: jsval

datatype Comment = Comment (attrs: CommentFields) (replies: "Comment list")

section \<open>Comment normalizer\<close>

text \<open>The placeholder material id: a string is parsed, anything else is \<^verbatim>\<open>d || 0\<close>.\<close>

definition default_material :: "jsval \<Rightarrow> jsval" where
  "default_material d = (case d of JStr s \<Rightarrow> parseInt10 s | _ \<Rightarrow> js_or d (JNum 0))"

definition placeholder :: "jsval \<Rightarrow> string \<Rightarrow> Comment" where
  "placeholder defaultMaterialId now =
     Comment \<lparr> id_of = JNum (- 1),
               material_id = default_material defaultMaterialId,
               user_id = JNum 0,
               username = JStr ''Unknown'',
               parent_id = JNull,
               content = JStr ''Error loading comment'',
               likes_count = JNum 0,
               created_at = JStr now,
               updated_at = JStr now,
               is_optimistic = Some False,
               is_liked = JBool False,
               user_avatar = JNull \<rparr> []"

text \<open>
  \<^verbatim>\<open>transformComment(backendComment, defaultMaterialId)\<close>; \<open>now\<close> is the value of
  \<^verbatim>\<open>new Date().toISOString()\<close>, the clock standing still during the call.  The
  function calls itself once per level of nested replies; \<open>depth\<close> is the number of such
  levels that the call stack still holds, and a call beyond it throws a RangeError.
\<close>

fun transformComment :: "nat \<Rightarrow> jsval \<Rightarrow> jsval \<Rightarrow> string \<Rightarrow> exn + Comment" where
  "transformComment depth backendComment defaultMaterialId now =
     (if \<not> truthy backendComment then Inr (placeholder defaultMaterialId now)
      else
        andThen (get_prop backendComment ''id'') (\<lambda>i.
        andThen (get_prop backendComment ''material_id'') (\<lambda>m.
        andThen (get_prop backendComment ''user_id'') (\<lambda>u.
        andThen (get_prop backendComment ''username'') (\<lambda>n.
        andThen (get_prop backendComment ''parent_id'') (\<lambda>p.
        andThen (get_prop backendComment ''content'') (\<lambda>c.
        andThen (get_prop backendComment ''likes_count'') (\<lambda>l.
        andThen (get_prop backendComment ''created_at'') (\<lambda>ca.
        andThen (get_prop backendComment ''updated_at'') (\<lambda>ua.
        andThen (get_prop backendComment ''user_avatar'') (\<lambda>av.
        andThen (get_prop backendComment ''replies'') (\<lambda>rv.
        andThen
          (case rv of
             JArr r xs \<Rightarrow>
               (case depth of
                  0 \<Rightarrow> if xs = [] then Inr [] else Inl RangeError
                | Suc below \<Rightarrow> collect (map (\<lambda>reply. transformComment below reply m now) xs))
           | _ \<Rightarrow> Inr []) (\<lambda>rs.
        andThen (get_prop backendComment ''is_liked'') (\<lambda>lk.
        Inr (Comment
          \<lparr> id_of = i,
            material_id = m,
            user_id = u,
            username = js_or n (JStr ''Anonymous''),
            parent_id = js_or p JNull,
            content = c,
            likes_count = js_or l (JNum 0),
            created_at = ca,
            updated_at = js_or ua ca,
            is_optimistic = None,
            is_liked = js_or lk (JBool False),
            user_avatar = js_or av JNull \<rparr> rs)))))))))))))))"

text \<open>
  \<^verbatim>\<open>xs.map(comment => transformComment(comment, defaultMaterialId))\<close>: calling
  \<^verbatim>\<open>map\<close> on a value that is not an array throws.
\<close>

definition map_transform :: "nat \<Rightarrow> jsval \<Rightarrow> jsval \<Rightarrow> string \<Rightarrow> exn + Comment list" where
  "map_transform depth arr defaultMaterialId now =
     (case arr of
        JArr r xs \<Rightarrow> collect (map (\<lambda>comment. transformComment depth comment defaultMaterialId now) xs)
      | _ \<Rightarrow> Inl TypeError)"

text \<open>The guard \<^verbatim>\<open>v && Array.isArray(v.k)\<close>: the property is read only when \<open>v\<close> is truthy.\<close>

definition and_isArray :: "jsval \<Rightarrow> string \<Rightarrow> exn + bool" where
  "and_isArray v k =
     (if truthy v then andThen (get_prop v k) (\<lambda>x. Inr (isArray x)) else Inr False)"

record CommentsResponse =
  items :: "Comment list"
  total :: jsval
  pages :: jsval
  current_page :: jsval

definition empty_response :: CommentsResponse where
  "empty_response = \<lparr> items = [], total = JNum 0, pages = JNum 1, current_page = JNum 1 \<rparr>"

text \<open>The three branches below \<^verbatim>\<open>backendResponse.data\<close>, entered when that value is truthy.\<close>

definition transformData :: "nat \<Rightarrow> jsval \<Rightarrow> jsval \<Rightarrow> string \<Rightarrow> exn + CommentsResponse" where
  "transformData depth d defaultMaterialId now =
     (if isArray d then
        andThen (map_transform depth d defaultMaterialId now) (\<lambda>cs.
        andThen (get_prop d ''length'') (\<lambda>n.
        Inr \<lparr> items = cs, total = n, pages = JNum 1, current_page = JNum 1 \<rparr>))
      else
        andThen (get_prop d ''items'') (\<lambda>di.
        if isArray di then
          andThen (map_transform depth di defaultMaterialId now) (\<lambda>cs.
          andThen (get_prop d ''total'') (\<lambda>t.
          andThen (if truthy t then Inr t else get_prop di ''length'') (\<lambda>tl.
          andThen (get_prop d ''pages'') (\<lambda>p.
          andThen (get_prop d ''current_page'') (\<lambda>cp.
          Inr \<lparr> items = cs, total = tl, pages = js_or p (JNum 1),
                current_page = js_or cp (JNum 1) \<rparr>)))))
        else
          andThen (get_prop d ''comments'') (\<lambda>dc.
          if isArray dc then
            andThen (map_transform depth dc defaultMaterialId now) (\<lambda>cs.
            andThen (get_prop d ''total'') (\<lambda>t.
            andThen (if truthy t then Inr t else get_prop dc ''length'') (\<lambda>tl.
            andThen (get_prop d ''pages'') (\<lambda>p.
            andThen (get_prop d ''current_page'') (\<lambda>cp.
            Inr \<lparr> items = cs, total = tl, pages = js_or p (JNum 1),
                  current_page = js_or cp (JNum 1) \<rparr>)))))
          else Inr empty_response)))"

text \<open>\<^verbatim>\<open>transformCommentsResponse(backendResponse, defaultMaterialId)\<close>.\<close>

definition transformCommentsResponse ::
  "nat \<Rightarrow> jsval \<Rightarrow> jsval \<Rightarrow> string \<Rightarrow> exn + CommentsResponse" where
  "transformCommentsResponse depth backendResponse defaultMaterialId now =
     andThen (and_isArray backendResponse ''items'') (\<lambda>c1.
     if c1 then
       andThen (get_prop backendResponse ''items'') (\<lambda>its.
       andThen (map_transform depth its defaultMaterialId now) (\<lambda>cs.
       andThen (get_prop backendResponse ''total'') (\<lambda>t.
       andThen (get_prop backendResponse ''pages'') (\<lambda>p.
       andThen (get_prop backendResponse ''current_page'') (\<lambda>cp.
       Inr \<lparr> items = cs, total = js_or t (JNum 0), pages = js_or p (JNum 1),
             current_page = js_or cp (JNum 1) \<rparr>)))))
     else
       andThen (and_isArray backendResponse ''comments'') (\<lambda>c2.
       if c2 then
         andThen (get_prop backendResponse ''comments'') (\<lambda>co.
         andThen (map_transform depth co defaultMaterialId now) (\<lambda>cs.
         andThen (get_prop backendResponse ''total'') (\<lambda>t.
         andThen (if truthy t then Inr t else get_prop co ''length'') (\<lambda>tl.
         andThen (get_prop backendResponse ''pages'') (\<lambda>p.
         andThen (get_prop backendResponse ''current_page'') (\<lambda>cp.
         Inr \<lparr> items = cs, total = tl, pages = js_or p (JNum 1),
               current_page = js_or cp (JNum 1) \<rparr>))))))
       else if truthy backendResponse \<and> isArray backendResponse then
         andThen (map_transform depth backendResponse defaultMaterialId now) (\<lambda>cs.
         andThen (get_prop backendResponse ''length'') (\<lambda>n.
         Inr \<lparr> items = cs, total = n, pages = JNum 1, current_page = JNum 1 \<rparr>))
       else
         andThen (if truthy backendResponse then get_prop backendResponse ''data''
                  else Inr backendResponse) (\<lambda>d.
         if truthy backendResponse \<and> truthy d
         then transformData depth d defaultMaterialId now
         else Inr empty_response)))"

section \<open>Comment tree operations\<close>

lemma replies_size: "c \<in> set cs \<Longrightarrow> size_list size (replies c) < size_list size cs"
  by (induction cs) (auto, cases c, simp)

text \<open>
  In \<^verbatim>\<open>findLikedStatus\<close> the test \<^verbatim>\<open>if (comment.replies)\<close> is on an array, and an
  array (the empty one too) is truthy; the test \<^verbatim>\<open>foundInReplies !== null\<close> is on a
  boolean, and a boolean is never \<^verbatim>\<open>null\<close>.
\<close>

definition array_truthy :: "Comment list \<Rightarrow> bool" where
  "array_truthy rs = True"

definition not_null :: "bool \<Rightarrow> bool" where
  "not_null b = True"

function findLikedStatus :: "Comment list \<Rightarrow> jsval \<Rightarrow> bool" where
  "findLikedStatus [] i = False"
| "findLikedStatus (comment # rest) i =
     (if strict_eq (id_of (attrs comment)) i then truthy (is_liked (attrs comment))
      else if array_truthy (replies comment) then
        (let foundInReplies = findLikedStatus (replies comment) i
         in if not_null foundInReplies then foundInReplies else findLikedStatus rest i)
      else findLikedStatus rest i)"
  by pat_completeness auto
termination
  by (relation "measure (\<lambda>(cs, i). size_list size cs)") (auto, case_tac comment, simp)

function updateCommentLikes :: "Comment list \<Rightarrow> jsval \<Rightarrow> bool \<Rightarrow> Comment list" where
  "updateCommentLikes cs targetId increment =
     map (\<lambda>comment.
       if strict_eq (id_of (attrs comment)) targetId then
         Comment ((attrs comment)
           \<lparr> likes_count := js_add (likes_count (attrs comment)) (if increment then 1 else - 1),
             is_liked := JBool increment \<rparr>) (replies comment)
       else if replies comment \<noteq> [] then
         Comment (attrs comment) (updateCommentLikes (replies comment) targetId increment)
       else comment) cs"
  by pat_completeness auto
termination
  by (relation "measure (\<lambda>(cs, t, b). size_list size cs)") (auto dest: replies_size)

function findComment :: "Comment list \<Rightarrow> jsval \<Rightarrow> Comment option" where
  "findComment [] i = None"
| "findComment (comment # rest) i =
     (if strict_eq (id_of (attrs comment)) i then Some comment
      else if replies comment \<noteq> [] then
        (case findComment (replies comment) i of
           Some foundInReplies \<Rightarrow> Some foundInReplies
         | None \<Rightarrow> findComment rest i)
      else findComment rest i)"
  by pat_completeness auto
termination
  by (relation "measure (\<lambda>(cs, i). size_list size cs)") (auto, case_tac comment, simp)

function updateCommentWithServerData :: "Comment list \<Rightarrow> Comment \<Rightarrow> Comment list" where
  "updateCommentWithServerData cs updatedComment =
     map (\<lambda>comment.
       if strict_eq (id_of (attrs comment)) (id_of (attrs updatedComment)) then updatedComment
       else if replies comment \<noteq> [] then
         Comment (attrs comment) (updateCommentWithServerData (replies comment) updatedComment)
       else comment) cs"
  by pat_completeness auto
termination
  by (relation "measure (\<lambda>(cs, u). size_list size cs)") (auto dest: replies_size)

text \<open>
  The object spread \<^verbatim>\<open>{...a, ...b}\<close> of two comments: every key of \<open>b\<close> wins, and
  \<^verbatim>\<open>is_optimistic\<close> is the only key a comment can lack.
\<close>

definition spread :: "Comment \<Rightarrow> Comment \<Rightarrow> Comment" where
  "spread a b =
     Comment ((attrs b)
       \<lparr> is_optimistic :=
           (case is_optimistic (attrs b) of None \<Rightarrow> is_optimistic (attrs a) | Some v \<Rightarrow> Some v) \<rparr>)
       (replies b)"

section \<open>The component state and its environment\<close>

record State =
  comments :: "Comment list"
  totalComments :: int
  totalPages :: int
  currentPage :: int
  isLoading :: bool
  error :: "string option"

text \<open>The item \<^verbatim>\<open>user\<close> of the local storage, as \<^verbatim>\<open>JSON.parse\<close> reads it.\<close>

datatype StoredUser = NoUser | BadJson | StoredJson jsval

text \<open>
  What the component reads from outside: the authentication context, the local storage, its
  \<^verbatim>\<open>materialId\<close> property, the clock (\<open>now_ms\<close> is \<^verbatim>\<open>Date.now()\<close>, \<open>now_iso\<close> is
  \<^verbatim>\<open>new Date().toISOString()\<close> at submission and \<open>reply_iso\<close> the same when the response
  is normalized), the levels of nested replies that the call stack holds when a response is
  normalized, and the message that the runtime gives an exception.
\<close>

record Env =
  isAuthenticated :: bool
  user :: jsval
  stored_user :: StoredUser
  token :: "string option"
  materialId :: jsval
  now_ms :: int
  now_iso :: string
  reply_iso :: string
  stack_depth :: nat
  message_of :: "exn \<Rightarrow> string"

text \<open>
  The network is an input: \<^verbatim>\<open>fetch\<close> rejects with a message, or resolves to a response with
  its \<^verbatim>\<open>ok\<close> flag and a body that \<^verbatim>\<open>response.json()\<close> rejects or parses.  The requests
  issued are an output.
\<close>

datatype Body = Unparsable string | Parsed jsval

datatype FetchResult = Rejected string | Response bool Body

datatype Request =
    PostComment jsval string jsval "string option"
  | PostLike jsval "string option"

section \<open>Adding a comment\<close>

text \<open>
  The author of an optimistic comment, username and id: the context user, else the stored
  one.  A stored value that cannot be read leaves the two as they are.
\<close>

definition session_identity :: "Env \<Rightarrow> jsval \<times> jsval" where
  "session_identity env =
     (let username = js_or (opt_chain (user env) ''username'') (JStr ''Anonymous'');
          userId = js_or (opt_chain (user env) ''id'') (JNum 0)
      in if \<not> truthy (user env) then
           (case stored_user env of
              StoredJson userData \<Rightarrow>
                (case get_prop userData ''username'' of
                   Inl e \<Rightarrow> (username, userId)
                 | Inr un \<Rightarrow>
                     (case get_prop userData ''id'' of
                        Inl e \<Rightarrow> (js_or un (JStr ''Anonymous''), userId)
                      | Inr ui \<Rightarrow> (js_or un (JStr ''Anonymous''), js_or ui (JNum 0))))
            | _ \<Rightarrow> (username, userId))
         else (username, userId))"

definition optimisticComment :: "Env \<Rightarrow> string \<Rightarrow> jsval \<Rightarrow> Comment" where
  "optimisticComment env text parentId =
     Comment \<lparr> id_of = JNum (- now_ms env),
               material_id = (case materialId env of JStr s \<Rightarrow> parseInt10 s | m \<Rightarrow> m),
               user_id = snd (session_identity env),
               username = fst (session_identity env),
               parent_id = parentId,
               content = JStr text,
               likes_count = JNum 0,
               created_at = JStr (now_iso env),
               updated_at = JStr (now_iso env),
               is_optimistic = Some True,
               is_liked = JBool False,
               user_avatar = JNull \<rparr> []"

text \<open>The optimistic update: \<^verbatim>\<open>!parentId\<close> holds for \<^verbatim>\<open>null\<close> and for \<open>0\<close>.\<close>

definition insertOptimistic :: "State \<Rightarrow> Comment \<Rightarrow> jsval \<Rightarrow> State" where
  "insertOptimistic st c parentId =
     (if \<not> truthy parentId then
        st \<lparr> comments := c # comments st, totalComments := totalComments st + 1 \<rparr>
      else
        st \<lparr> comments :=
               map (\<lambda>comment.
                 if strict_eq (id_of (attrs comment)) parentId
                 then Comment (attrs comment) (replies comment @ [c])
                 else comment) (comments st) \<rparr>)"

text \<open>The revert on a response that is not \<^verbatim>\<open>ok\<close>.\<close>

definition removeOptimistic :: "State \<Rightarrow> Comment \<Rightarrow> jsval \<Rightarrow> State" where
  "removeOptimistic st c parentId =
     (if \<not> truthy parentId then
        st \<lparr> comments := filter (\<lambda>x. \<not> strict_eq (id_of (attrs x)) (id_of (attrs c))) (comments st),
             totalComments := totalComments st - 1 \<rparr>
      else
        st \<lparr> comments :=
               map (\<lambda>comment.
                 if strict_eq (id_of (attrs comment)) parentId
                 then Comment (attrs comment)
                        (filter (\<lambda>r. \<not> strict_eq (id_of (attrs r)) (id_of (attrs c)))
                           (replies comment))
                 else comment) (comments st) \<rparr>)"

text \<open>The merged record \<^verbatim>\<open>newComment\<close> of a successful response.\<close>

definition mergeComment :: "Comment \<Rightarrow> Comment \<Rightarrow> Comment" where
  "mergeComment optimistic transformed =
     Comment ((attrs (spread optimistic transformed))
       \<lparr> id_of := js_or (id_of (attrs transformed)) (id_of (attrs optimistic)),
         material_id := material_id (attrs optimistic),
         user_id := user_id (attrs optimistic),
         username := username (attrs optimistic),
         content := content (attrs optimistic),
         created_at := created_at (attrs optimistic),
         updated_at := updated_at (attrs optimistic),
         is_optimistic := Some False \<rparr>)
       (replies (spread optimistic transformed))"

text \<open>Replacing the optimistic comment by the merged one.\<close>

definition replaceOptimistic :: "State \<Rightarrow> Comment \<Rightarrow> Comment \<Rightarrow> jsval \<Rightarrow> State" where
  "replaceOptimistic st c newComment parentId =
     (if \<not> truthy parentId then
        st \<lparr> comments :=
               map (\<lambda>x. if strict_eq (id_of (attrs x)) (id_of (attrs c)) then newComment else x)
                 (comments st) \<rparr>
      else
        st \<lparr> comments :=
               map (\<lambda>comment.
                 if strict_eq (id_of (attrs comment)) parentId
                 then Comment (attrs comment)
                        (map (\<lambda>reply. if strict_eq (id_of (attrs reply)) (id_of (attrs c))
                                       then newComment else reply)
                           (replies comment))
                 else comment) (comments st) \<rparr>)"

text \<open>\<^verbatim>\<open>responseData.data?.comment || responseData\<close>.\<close>

definition rawComment :: "jsval \<Rightarrow> exn + jsval" where
  "rawComment responseData =
     andThen (get_prop responseData ''data'') (\<lambda>d.
     Inr (js_or (opt_chain d ''comment'') responseData))"

text \<open>The comment of a response body, normalized.\<close>

definition normalizeReply :: "Env \<Rightarrow> jsval \<Rightarrow> exn + Comment" where
  "normalizeReply env responseData =
     andThen (rawComment responseData) (\<lambda>raw.
     transformComment (stack_depth env) raw (materialId env) (reply_iso env))"

text \<open>The state when the request is sent: the optimistic comment is in, loading is on.\<close>

definition addComment_pending :: "Env \<Rightarrow> State \<Rightarrow> string \<Rightarrow> jsval \<Rightarrow> State" where
  "addComment_pending env st text parentId =
     (insertOptimistic (st \<lparr> error := None \<rparr>) (optimisticComment env text parentId) parentId)
       \<lparr> isLoading := True \<rparr>"

text \<open>
  \<^verbatim>\<open>addComment(content, parentId)\<close>: the final state, the requests issued and the value
  returned (\<open>None\<close> is \<^verbatim>\<open>null\<close>).  Every exception is caught and becomes the error
  message; \<^verbatim>\<open>finally\<close> turns loading off.
\<close>

definition addComment ::
  "Env \<Rightarrow> State \<Rightarrow> string \<Rightarrow> jsval \<Rightarrow> FetchResult \<Rightarrow> State \<times> Request list \<times> Comment option" where
  "addComment env st text parentId net =
     (if \<not> isAuthenticated env then
        (st \<lparr> error := Some ''You must be logged in to add comments'' \<rparr>, [], None)
      else
        let c = optimisticComment env text parentId;
            pending = addComment_pending env st text parentId;
            request = PostComment (materialId env) text parentId (token env);
            failed = (\<lambda>s msg. (s \<lparr> error := Some msg, isLoading := False \<rparr>, [request], None))
        in case net of
             Rejected msg \<Rightarrow> failed pending msg
           | Response ok body \<Rightarrow>
               if \<not> ok then failed (removeOptimistic pending c parentId) ''Failed to add comment''
               else
                 (case body of
                    Unparsable msg \<Rightarrow> failed pending msg
                  | Parsed responseData \<Rightarrow>
                      (case normalizeReply env responseData of
                         Inl e \<Rightarrow> failed pending (message_of env e)
                       | Inr transformedComment \<Rightarrow>
                           let newComment = mergeComment c transformedComment
                           in ((replaceOptimistic pending c newComment parentId)
                                 \<lparr> isLoading := False \<rparr>, [request], Some newComment))))"

section \<open>Toggling a like\<close>

text \<open>The state after the optimistic update of \<^verbatim>\<open>toggleCommentLike\<close>.\<close>

definition toggle_pending :: "State \<Rightarrow> jsval \<Rightarrow> State" where
  "toggle_pending st commentId =
     (let isAlreadyLiked = findLikedStatus (comments st) commentId
      in st \<lparr> comments := updateCommentLikes (comments st) commentId (\<not> isAlreadyLiked),
              error := None \<rparr>)"

text \<open>The merged record \<^verbatim>\<open>updatedComment\<close> of a response that carries a comment.\<close>

definition mergeLiked :: "Comment option \<Rightarrow> Comment \<Rightarrow> bool \<Rightarrow> Comment" where
  "mergeLiked originalComment transformed isAlreadyLiked =
     (case originalComment of
        None \<Rightarrow> transformed
      | Some original \<Rightarrow>
          Comment ((attrs (spread original transformed))
            \<lparr> id_of := js_or (id_of (attrs transformed)) (id_of (attrs original)),
              material_id := js_or (material_id (attrs transformed)) (material_id (attrs original)),
              username := js_or (username (attrs transformed)) (username (attrs original)),
              content := js_or (content (attrs transformed)) (content (attrs original)),
              likes_count := (if likes_count (attrs transformed) \<noteq> JUndefined
                              then likes_count (attrs transformed)
                              else likes_count (attrs original)),
              is_liked := (if is_liked (attrs transformed) \<noteq> JUndefined
                           then is_liked (attrs transformed)
                           else JBool (\<not> isAlreadyLiked)) \<rparr>)
            (replies (spread original transformed)))"

text \<open>
  What the handler keeps while its request is under way: the id, the like status it has
  read, and the tree of the state in which it was created.
\<close>

record Pending =
  p_id :: jsval
  p_liked :: bool
  p_comments :: "Comment list"

definition pending_toggle :: "State \<Rightarrow> jsval \<Rightarrow> Pending" where
  "pending_toggle st commentId =
     \<lparr> p_id = commentId, p_liked = findLikedStatus (comments st) commentId,
       p_comments = comments st \<rparr>"

text \<open>\<^verbatim>\<open>responseData.data && responseData.data.comment\<close>, when it is truthy.\<close>

definition likePayload :: "jsval \<Rightarrow> exn + jsval option" where
  "likePayload responseData =
     andThen (get_prop responseData ''data'') (\<lambda>d.
     if truthy d then
       andThen (get_prop d ''comment'') (\<lambda>c. Inr (if truthy c then Some c else None))
     else Inr None)"

text \<open>
  A state of the tree is the result of an optimistic update, of a response that was
  handled without a comment of the server, or of the merge of such a comment; or it is the
  state in which a toggle was refused.
\<close>

datatype Origin = Optimistic | Settled | Merged | Refused

text \<open>
  The part of \<^verbatim>\<open>toggleCommentLike\<close> after \<^verbatim>\<open>await fetch\<close>, applied to the state that is
  current when the response arrives.
\<close>

definition toggle_settle :: "Env \<Rightarrow> State \<Rightarrow> Pending \<Rightarrow> FetchResult \<Rightarrow> Origin \<times> State" where
  "toggle_settle env cur p net =
     (let failed = (\<lambda>s msg. (Settled, s \<lparr> error := Some msg \<rparr>))
      in case net of
           Rejected msg \<Rightarrow> failed cur msg
         | Response ok body \<Rightarrow>
             if \<not> ok then
               (let reverted = cur
                      \<lparr> comments := updateCommentLikes (comments cur) (p_id p) (p_liked p) \<rparr>
                in case body of
                     Unparsable msg \<Rightarrow> failed reverted msg
                   | Parsed errorData \<Rightarrow>
                       (case get_prop errorData ''error'' of
                          Inl e \<Rightarrow> failed reverted (message_of env e)
                        | Inr e \<Rightarrow>
                            failed reverted
                              (js_string (js_or e (JStr ''Failed to toggle comment like'')))))
             else
               (case body of
                  Unparsable msg \<Rightarrow> failed cur msg
                | Parsed responseData \<Rightarrow>
                    (case likePayload responseData of
                       Inl e \<Rightarrow> failed cur (message_of env e)
                     | Inr None \<Rightarrow> (Settled, cur)
                     | Inr (Some raw) \<Rightarrow>
                         (case transformComment (stack_depth env) raw (materialId env)
                                 (reply_iso env) of
                            Inl e \<Rightarrow> failed cur (message_of env e)
                          | Inr transformedComment \<Rightarrow>
                              (Merged, cur \<lparr> comments :=
                                 updateCommentWithServerData (comments cur)
                                   (mergeLiked (findComment (p_comments p) (p_id p))
                                      transformedComment (p_liked p)) \<rparr>)))))"

text \<open>
  \<^verbatim>\<open>toggleCommentLike(commentId)\<close> when nothing else happens before the response: the
  final state and the requests issued.
\<close>

definition toggleCommentLike ::
  "Env \<Rightarrow> State \<Rightarrow> jsval \<Rightarrow> FetchResult \<Rightarrow> State \<times> Request list" where
  "toggleCommentLike env st commentId net =
     (if \<not> isAuthenticated env then
        (st \<lparr> error := Some ''You must be logged in to like comments'' \<rparr>, [])
      else
        (snd (toggle_settle env (toggle_pending st commentId) (pending_toggle st commentId) net),
         [PostLike commentId (token env)]))"

text \<open>
  The handler is asynchronous: between its optimistic update and its response, other
  toggles can start and other responses arrive.  An event is a click on a like button or
  the response to the \<open>k\<close>-th of the requests under way.  A click is handled by the
  component as rendered with the current state: the tree in which the handler reads the
  like status, and in which it later looks for the original comment, is the tree of that
  moment, while each queued updater is applied to the tree that is current when it runs.
  \<open>run\<close> gives every state the tree goes through, with its origin.
\<close>

datatype Event = Click jsval | Settle nat FetchResult

fun run :: "Env \<Rightarrow> State \<Rightarrow> Pending list \<Rightarrow> Event list \<Rightarrow> (Origin \<times> State) list" where
  "run env st ps [] = []"
| "run env st ps (Click commentId # evs) =
     (if isAuthenticated env then
        (Optimistic, toggle_pending st commentId)
          # run env (toggle_pending st commentId) (ps @ [pending_toggle st commentId]) evs
      else
        (Refused, st \<lparr> error := Some ''You must be logged in to like comments'' \<rparr>)
          # run env (st \<lparr> error := Some ''You must be logged in to like comments'' \<rparr>) ps evs)"
| "run env st ps (Settle k net # evs) =
     (if k < length ps then
        toggle_settle env st (ps ! k) net
          # run env (snd (toggle_settle env st (ps ! k) net)) (take k ps @ drop (Suc k) ps) evs
      else run env st ps evs)"

text \<open>The toggles are handled one at a time: each response comes before the next click.\<close>

fun serialized :: "Event list \<Rightarrow> bool" where
  "serialized [] = True"
| "serialized [Click commentId] = True"
| "serialized (Click commentId # Settle k net # evs) = (k = 0 \<and> serialized evs)"
| "serialized evs = False"

section \<open>Properties of a tree\<close>

text \<open>All nodes of a forest, parents before their replies.\<close>

fun nodes_of :: "Comment \<Rightarrow> CommentFields list" where
  "nodes_of (Comment f rs) = f # concat (map nodes_of rs)"

definition all_nodes :: "Comment list \<Rightarrow> CommentFields list" where
  "all_nodes cs = concat (map nodes_of cs)"

definition id_negative :: "CommentFields \<Rightarrow> bool" where
  "id_negative f = (case id_of f of JNum n \<Rightarrow> n < 0 | _ \<Rightarrow> False)"

definition id_positive :: "CommentFields \<Rightarrow> bool" where
  "id_positive f = (case id_of f of JNum n \<Rightarrow> 0 < n | _ \<Rightarrow> False)"

text \<open>
  The flag and the sign of the id agree: an optimistic node has a negative id, no node has
  a negative id without the flag, none a positive id with it.  A node without the key
  \<^verbatim>\<open>is_optimistic\<close> is not optimistic.
\<close>

definition flag_agrees :: "CommentFields \<Rightarrow> bool" where
  "flag_agrees f =
     ((if is_optimistic f = Some True then id_negative f else True)
      \<and> \<not> (id_negative f \<and> is_optimistic f \<noteq> Some True)
      \<and> \<not> (id_positive f \<and> is_optimistic f = Some True))"

definition tree_flags_agree :: "Comment list \<Rightarrow> bool" where
  "tree_flags_agree cs = list_all flag_agrees (all_nodes cs)"


definition likes_sound :: "CommentFields \<Rightarrow> bool" where
  "likes_sound f =
     (case likes_count f of
        JNum n \<Rightarrow> 0 \<le> n \<and> (if truthy (is_liked f) then 1 \<le> n else True)
      | _ \<Rightarrow> False)"


definition tree_sound :: "Comment list \<Rightarrow> bool" where
  "tree_sound cs = (distinct (map id_of (all_nodes cs)) \<and> list_all likes_sound (all_nodes cs))"

text \<open>In a run, every tree that results from the merge of a comment of the server is sound.\<close>

definition merges_sound :: "(Origin \<times> State) list \<Rightarrow> bool" where
  "merges_sound states =
     list_all (\<lambda>(origin, s). if origin = Merged then tree_sound (comments s) else True) states"

text \<open>What \<^verbatim>\<open>updateCommentLikes\<close> does to the node it targets.\<close>

definition bump :: "jsval \<Rightarrow> bool \<Rightarrow> CommentFields \<Rightarrow> CommentFields" where
  "bump targetId increment f =
     (if strict_eq (id_of f) targetId
      then f \<lparr> likes_count := js_add (likes_count f) (if increment then 1 else - 1),
               is_liked := JBool increment \<rparr>
      else f)"

text \<open>The normalized comment of a successful response to a new comment, when there is one.\<close>

definition normalized_reply :: "Env \<Rightarrow> FetchResult \<Rightarrow> Comment option" where
  "normalized_reply env net =
     (case net of
        Response ok (Parsed responseData) \<Rightarrow>
          if ok then (case normalizeReply env responseData of Inl e \<Rightarrow> None | Inr t \<Rightarrow> Some t)
          else None
      | _ \<Rightarrow> None)"

section \<open>Shapes and depth of a payload\<close>

text \<open>The first matching shape of a list response, in the order of the six shapes.\<close>

definition obj_array :: "jsval \<Rightarrow> string \<Rightarrow> jsval list option" where
  "obj_array v k =
     (case v of
        JObj r kvs \<Rightarrow> (case map_of kvs k of Some (JArr q xs) \<Rightarrow> Some xs | _ \<Rightarrow> None)
      | _ \<Rightarrow> None)"

definition source_array :: "jsval \<Rightarrow> jsval list option" where
  "source_array r =
     (case obj_array r ''items'' of Some xs \<Rightarrow> Some xs | None \<Rightarrow>
      (case obj_array r ''comments'' of Some xs \<Rightarrow> Some xs | None \<Rightarrow>
      (case r of JArr q xs \<Rightarrow> Some xs | _ \<Rightarrow>
      (case obj_array r ''data'' of Some xs \<Rightarrow> Some xs | None \<Rightarrow>
      (case r of
         JObj q kvs \<Rightarrow>
           (case map_of kvs ''data'' of
              Some d \<Rightarrow>
                (case obj_array d ''items'' of Some xs \<Rightarrow> Some xs | None \<Rightarrow>
                   obj_array d ''comments'')
            | None \<Rightarrow> None)
       | _ \<Rightarrow> None)))))"

definition elems :: "jsval \<Rightarrow> jsval list" where
  "elems v = (case v of JArr r xs \<Rightarrow> xs | _ \<Rightarrow> [])"

text \<open>
  A payload fits a stack that holds \<open>depth\<close> levels of nested replies: below a comment
  its replies nest at most \<open>depth\<close> levels deep.
\<close>

fun fits :: "nat \<Rightarrow> jsval \<Rightarrow> bool" where
  "fits depth v =
     (if \<not> truthy v then True
      else (case opt_chain v ''replies'' of
              JArr r xs \<Rightarrow>
                (case depth of 0 \<Rightarrow> xs = [] | Suc below \<Rightarrow> list_all (fits below) xs)
            | _ \<Rightarrow> True))"

text \<open>A comment with one reply, which has one reply, and so on, \<open>n\<close> levels deep.\<close>

fun nested :: "nat \<Rightarrow> jsval" where
  "nested 0 = JObj 0 []"
| "nested (Suc n) = JObj (2 * n + 2) [(''replies'', JArr (2 * n + 1) [nested n])]"

text \<open>What the batch normalizer does with the array \<open>xs\<close> it resolves: a result with as
  many items when every element fits the stack, a RangeError otherwise.\<close>

definition resolves :: "exn + CommentsResponse \<Rightarrow> nat \<Rightarrow> jsval list \<Rightarrow> bool" where
  "resolves result depth xs =
     (if list_all (fits depth) xs
      then (case result of Inr res \<Rightarrow> length (items res) = length xs | Inl e \<Rightarrow> False)
      else result = Inl RangeError)"

section \<open>Sample data\<close>

definition sample_comment :: "int \<Rightarrow> bool \<Rightarrow> int \<Rightarrow> Comment list \<Rightarrow> Comment" where
  "sample_comment i liked n rs =
     Comment \<lparr> id_of = JNum i, material_id = JNum 3, user_id = JNum 1, username = JStr ''bob'',
               parent_id = JNull, content = JStr ''text'', likes_count = JNum n,
               created_at = JStr ''2024-01-01T00:00:00.000Z'',
               updated_at = JStr ''2024-01-01T00:00:00.000Z'',
               is_optimistic = None, is_liked = JBool liked, user_avatar = JNull \<rparr> rs"

definition sample_state :: "Comment list \<Rightarrow> State" where
  "sample_state cs =
     \<lparr> comments = cs, totalComments = 2, totalPages = 1, currentPage = 1, isLoading = False,
       error = None \<rparr>"

definition sample_message :: "exn \<Rightarrow> string" where
  "sample_message e = (case e of TypeError \<Rightarrow> ''TypeError'' | RangeError \<Rightarrow> ''RangeError'')"

definition sample_env :: Env where
  "sample_env =
     \<lparr> isAuthenticated = True,
       user = JObj 1 [(''username'', JStr ''ann''), (''id'', JNum 9)],
       stored_user = NoUser, token = Some ''secret'', materialId = JNum 3, now_ms = 1000,
       now_iso = ''2024-02-02T00:00:00.000Z'', reply_iso = ''2024-02-02T00:00:01.000Z'',
       stack_depth = 1000, message_of = sample_message \<rparr>"

text \<open>
  A response to \<^verbatim>\<open>Hello\<close> by a server that stores the comment under another
  username, with another content and its own creation time.
\<close>

definition sample_reply :: jsval where
  "sample_reply =
     JObj 2 [(''data'', JObj 3 [(''comment'',
       JObj 4 [(''id'', JNum 42), (''material_id'', JNum 3), (''user_id'', JNum 9),
               (''username'', JStr ''alice''), (''content'', JStr ''Hello!''),
               (''created_at'', JStr ''2024-02-02T00:00:05.000Z'')])])]"


definition anonymous_env :: Env where
  "anonymous_env = sample_env \<lparr> isAuthenticated := False, user := JNull \<rparr>"


text \<open>A response to a like of comment 1 that says the comment is liked, and gives no count.\<close>

definition sample_liked_reply :: jsval where
  "sample_liked_reply =
     JObj 10 [(''data'', JObj 11 [(''comment'',
       JObj 12 [(''id'', JNum 1), (''is_liked'', JBool True)])])]"

section \<open>When the normalizer returns and when it throws\<close>

declare transformComment.simps [simp del]
declare fits.simps [simp del]

lemma andThen_simps [simp]:
  "andThen (Inr v) f = f v"
  "andThen (Inl e) f = Inl e"
  by (simp_all add: andThen_def)

lemma get_prop_truthy: "truthy v \<Longrightarrow> get_prop v k = Inr (opt_chain v k)"
  by (cases v) (auto simp: opt_chain_def)

lemma collect_Inr:
  "(\<And>x. x \<in> set xs \<Longrightarrow> \<exists>y. f x = Inr y) \<Longrightarrow>
     collect (map f xs) = Inr (map (\<lambda>x. projr (f x)) xs)"
proof (induction xs)
  case Nil
  then show ?case by simp
next
  case (Cons x xs)
  from Cons.prems [of x] obtain y where y: "f x = Inr y" by auto
  have "collect (map f xs) = Inr (map (\<lambda>x. projr (f x)) xs)"
    using Cons.prems by (intro Cons.IH) auto
  with y show ?case by simp
qed

lemma collect_Inl:
  "(\<And>x. x \<in> set xs \<Longrightarrow> (\<exists>y. f x = Inr y) \<or> f x = Inl e) \<Longrightarrow>
     \<exists>x \<in> set xs. f x = Inl e \<Longrightarrow> collect (map f xs) = Inl e"
proof (induction xs)
  case Nil
  then show ?case by simp
next
  case (Cons x xs)
  show ?case
  proof (cases "f x")
    case (Inl a)
    with Cons.prems(1) [of x] show ?thesis by simp
  next
    case (Inr y)
    with Cons.prems(2) have ex: "\<exists>x \<in> set xs. f x = Inl e" by auto
    have "collect (map f xs) = Inl e"
      using Cons.prems(1) ex by (intro Cons.IH) auto
    with Inr show ?thesis by simp
  qed
qed

lemma transformComment_fits:
  "(fits depth v \<longrightarrow> (\<exists>c. transformComment depth v d now = Inr c))
   \<and> (\<not> fits depth v \<longrightarrow> transformComment depth v d now = Inl RangeError)"
proof (induction depth arbitrary: v d)
  case 0
  show ?case
  proof (cases "truthy v")
    case False
    then show ?thesis
      by (simp add: transformComment.simps fits.simps)
  next
    case True
    note gp = get_prop_truthy [OF True]
    show ?thesis
      using True
      by (subst (1 2) transformComment.simps, subst (1 2) fits.simps)
        (auto simp: gp split: jsval.splits)
  qed
next
  case (Suc below)
  show ?case
  proof (cases "truthy v")
    case False
    then show ?thesis
      by (simp add: transformComment.simps fits.simps)
  next
    case True
    note gp = get_prop_truthy [OF True]
    let ?m = "opt_chain v ''material_id''"
    have ok: "collect (map (\<lambda>reply. transformComment below reply ?m now) xs)
                = Inr (map (\<lambda>reply. projr (transformComment below reply ?m now)) xs)"
      if "list_all (fits below) xs" for xs
      using that Suc.IH [of _ ?m] by (intro collect_Inr) (auto simp: list_all_iff)
    have bad: "collect (map (\<lambda>reply. transformComment below reply ?m now) xs) = Inl RangeError"
      if "\<not> list_all (fits below) xs" for xs
      using that Suc.IH [of _ ?m] by (intro collect_Inl) (auto simp: list_all_iff)
    show ?thesis
      using True ok bad
      by (subst (1 2) transformComment.simps, subst (1 2) fits.simps)
        (auto simp: gp split: jsval.splits)
  qed
qed

lemma transformComment_Inr:
  "fits depth v \<Longrightarrow> transformComment depth v d now = Inr (projr (transformComment depth v d now))"
  using transformComment_fits [of depth v d now] by auto

lemma transformComment_Inl:
  "\<not> fits depth v \<Longrightarrow> transformComment depth v d now = Inl RangeError"
  using transformComment_fits [of depth v d now] by auto

lemma map_transform_JArr:
  "map_transform depth (JArr r xs) d now =
     (if list_all (fits depth) xs
      then Inr (map (\<lambda>c. projr (transformComment depth c d now)) xs)
      else Inl RangeError)"
proof (cases "list_all (fits depth) xs")
  case True
  then have "collect (map (\<lambda>c. transformComment depth c d now) xs)
      = Inr (map (\<lambda>c. projr (transformComment depth c d now)) xs)"
    using transformComment_fits [of depth _ d now] by (intro collect_Inr) (auto simp: list_all_iff)
  with True show ?thesis by (simp add: map_transform_def)
next
  case False
  then have "collect (map (\<lambda>c. transformComment depth c d now) xs) = Inl RangeError"
    using transformComment_fits [of depth _ d now] by (intro collect_Inl) (auto simp: list_all_iff)
  with False show ?thesis by (simp add: map_transform_def)
qed

lemma isArray_elems: "isArray v \<Longrightarrow> \<exists>r. v = JArr r (elems v)"
  by (cases v) (auto simp: elems_def)

lemma isArray_truthy: "isArray v \<Longrightarrow> truthy v"
  by (cases v) auto

lemma falsy_opt_chain: "\<not> truthy v \<Longrightarrow> \<not> isArray (opt_chain v k)"
  by (cases v) (auto simp: opt_chain_def)

lemma falsy_opt_chain_falsy: "\<not> truthy v \<Longrightarrow> \<not> truthy (opt_chain v k)"
  by (cases v) (auto simp: opt_chain_def)

lemma map_transform_isArray:
  "isArray v \<Longrightarrow>
     map_transform depth v d now =
       (if list_all (fits depth) (elems v)
        then Inr (map (\<lambda>c. projr (transformComment depth c d now)) (elems v))
        else Inl RangeError)"
proof -
  assume "isArray v"
  then obtain r where v: "v = JArr r (elems v)"
    using isArray_elems by blast
  show ?thesis
    by (subst v) (rule map_transform_JArr)
qed

lemma length_isArray: "isArray v \<Longrightarrow> get_prop v ''length'' = Inr (JNum (int (length (elems v))))"
  by (cases v) (auto simp: elems_def)

section \<open>The batch normalizer\<close>

lemma obj_array_alt:
  "obj_array v k = (if isArray (opt_chain v k) then Some (elems (opt_chain v k)) else None)"
  by (cases v) (auto simp: obj_array_def opt_chain_def elems_def split: option.splits jsval.splits)

lemma data_alt:
  assumes "\<And>d. \<not> truthy d \<Longrightarrow> f d = None"
  shows "(case r of
            JObj q kvs \<Rightarrow> (case map_of kvs ''data'' of Some d \<Rightarrow> f d | None \<Rightarrow> None)
          | _ \<Rightarrow> None)
         = (if truthy (opt_chain r ''data'') then f (opt_chain r ''data'') else None)"
  using assms by (cases r) (auto simp: opt_chain_def split: option.splits)

lemma source_array_alt:
  "source_array r =
     (if isArray (opt_chain r ''items'') then Some (elems (opt_chain r ''items''))
      else if isArray (opt_chain r ''comments'') then Some (elems (opt_chain r ''comments''))
      else if isArray r then Some (elems r)
      else if isArray (opt_chain r ''data'') then Some (elems (opt_chain r ''data''))
      else if \<not> truthy (opt_chain r ''data'') then None
      else if isArray (opt_chain (opt_chain r ''data'') ''items'')
        then Some (elems (opt_chain (opt_chain r ''data'') ''items''))
      else if isArray (opt_chain (opt_chain r ''data'') ''comments'')
        then Some (elems (opt_chain (opt_chain r ''data'') ''comments''))
      else None)"
proof -
  let ?f = "\<lambda>d. (case obj_array d ''items'' of Some xs \<Rightarrow> Some xs | None \<Rightarrow> obj_array d ''comments'')"
  have f: "?f d = None" if "\<not> truthy d" for d
    using that by (simp add: obj_array_alt falsy_opt_chain)
  have arr: "(case r of JArr q xs \<Rightarrow> Some xs | _ \<Rightarrow> X) = (if isArray r then Some (elems r) else X)"
    for X
    by (cases r) (auto simp: elems_def)
  show ?thesis
    unfolding source_array_def arr
    by (simp add: data_alt [where f = ?f, OF f] obj_array_alt)
qed

lemma resolves_array:
  assumes "isArray a"
  shows "resolves (andThen (map_transform depth a dm now) (\<lambda>cs. Inr (f cs))) depth (elems a)
     = (if list_all (fits depth) (elems a)
        then length (items (f (map (\<lambda>c. projr (transformComment depth c dm now)) (elems a))))
               = length (elems a)
        else True)"
  by (simp add: resolves_def map_transform_isArray [OF assms])

lemma transformData_ok:
  assumes "truthy d"
  shows "if isArray d then resolves (transformData depth d dm now) depth (elems d)
      else if isArray (opt_chain d ''items'')
        then resolves (transformData depth d dm now) depth (elems (opt_chain d ''items''))
      else if isArray (opt_chain d ''comments'')
        then resolves (transformData depth d dm now) depth (elems (opt_chain d ''comments''))
      else transformData depth d dm now = Inr empty_response"
  using assms
  by (simp add: transformData_def get_prop_truthy isArray_truthy map_transform_isArray
      resolves_def length_isArray)

lemma transformCommentsResponse_resolves:
  "case source_array r of
     Some xs \<Rightarrow> resolves (transformCommentsResponse depth r dm now) depth xs
   | None \<Rightarrow> transformCommentsResponse depth r dm now = Inr empty_response"
proof (cases "truthy r")
  case False
  then show ?thesis
    using isArray_truthy [of r]
    by (auto simp: transformCommentsResponse_def and_isArray_def source_array_alt falsy_opt_chain
        falsy_opt_chain_falsy)
next
  case r: True
  show ?thesis
  proof (cases "isArray (opt_chain r ''items'') \<or> isArray (opt_chain r ''comments'') \<or> isArray r")
    case True
    with r show ?thesis
      by (auto simp: transformCommentsResponse_def and_isArray_def source_array_alt
          get_prop_truthy isArray_truthy map_transform_isArray resolves_def length_isArray)
  next
    case False
    show ?thesis
    proof (cases "truthy (opt_chain r ''data'')")
      case d: True
      have "transformCommentsResponse depth r dm now = transformData depth (opt_chain r ''data'') dm now"
        using r d False
        by (simp add: transformCommentsResponse_def and_isArray_def get_prop_truthy)
      with transformData_ok [OF d, where depth = depth and dm = dm and now = now] False d
      show ?thesis
        by (simp add: source_array_alt)
    next
      case d: False
      with r False isArray_truthy [of "opt_chain r ''data''"] show ?thesis
        by (auto simp: transformCommentsResponse_def and_isArray_def source_array_alt
            get_prop_truthy falsy_opt_chain)
    qed
  qed
qed

lemma fits_nested: "fits n (nested n)"
  by (induction n) (simp_all add: fits.simps opt_chain_def)

lemma not_fits_nested: "\<not> fits n (nested (Suc n))"
proof (induction n)
  case 0
  show ?case by (simp add: fits.simps opt_chain_def)
next
  case (Suc n)
  have "fits (Suc n) (nested (Suc (Suc n))) = fits n (nested (Suc n))"
    by (subst fits.simps) (simp add: opt_chain_def)
  with Suc show ?case by simp
qed

lemma fits_mono: "fits n v \<Longrightarrow> fits (Suc n) v"
proof (induction n arbitrary: v)
  case 0
  then show ?case
    by (subst fits.simps, subst (asm) fits.simps) (auto split: jsval.splits if_splits)
next
  case (Suc n)
  from Suc.prems show ?case
    by (subst fits.simps, subst (asm) fits.simps)
      (auto split: jsval.splits if_splits simp: list_all_iff intro: Suc.IH)
qed

text \<open>
  C7.  When the value has one of the six shapes, the array of the first shape that matches
  is resolved.  If every element of that array fits the call stack (its replies nest no
  deeper than the stack holds), the batch normalizer returns a result with as many items
  as the array has elements; if some element does not fit, it throws a RangeError.  When
  the value has none of the six shapes, the normalizer returns the empty result: no items,
  total 0, pages 1, current page 1.
\<close>

theorem transformCommentsResponse_shapes:
  "case source_array r of
     Some xs \<Rightarrow>
       (if list_all (fits depth) xs
        then (\<exists>res. transformCommentsResponse depth r dm now = Inr res
                \<and> length (items res) = length xs)
        else transformCommentsResponse depth r dm now = Inl RangeError)
   | None \<Rightarrow>
       transformCommentsResponse depth r dm now
         = Inr \<lparr> items = [], total = JNum 0, pages = JNum 1, current_page = JNum 1 \<rparr>"
  using transformCommentsResponse_resolves [where r = r and depth = depth and dm = dm and now = now]
  by (auto simp: resolves_def empty_response_def split: option.splits sum.splits)

theorem transformCommentsResponse_shapes_witness:
  "(\<exists>res. transformCommentsResponse 1000
            (JObj 1 [(''comments'', JArr 2 [JNull, JObj 3 [(''id'', JNum 7)], JObj 4 []]),
                     (''total'', JNum 3)])
            (JNum 3) ''now'' = Inr res
         \<and> length (items res) = 3)
   \<and> transformCommentsResponse 1000 (JObj 1 [(''rows'', JArr 2 [JNull])]) (JNum 3) ''now''
       = Inr \<lparr> items = [], total = JNum 0, pages = JNum 1, current_page = JNum 1 \<rparr>
   \<and> transformCommentsResponse 0
        (JObj 1 [(''items'', JArr 2 [JObj 3 [(''replies'', JArr 4 [JObj 5 []])]])])
        (JNum 3) ''now'' = Inl RangeError"
  using transformCommentsResponse_shapes
          [where r = "JObj 1 [(''comments'', JArr 2 [JNull, JObj 3 [(''id'', JNum 7)], JObj 4 []]),
                              (''total'', JNum 3)]"
             and depth = 1000 and dm = "JNum 3" and now = "''now''"]
        transformCommentsResponse_shapes
          [where r = "JObj 1 [(''rows'', JArr 2 [JNull])]"
             and depth = 1000 and dm = "JNum 3" and now = "''now''"]
        transformCommentsResponse_shapes
          [where r = "JObj 1 [(''items'', JArr 2 [JObj 3 [(''replies'', JArr 4 [JObj 5 []])]])]"
             and depth = 0 and dm = "JNum 3" and now = "''now''"]
  by (simp add: source_array_def obj_array_def numeral_3_eq_3 fits.simps opt_chain_def)

text \<open>
  The normalizer throws on a payload whose replies nest deeper than the call stack holds:
  for a stack of 10000 levels, one comment with replies nested 10001 levels deep, in the
  first of the six shapes.
\<close>

theorem transformCommentsResponse_shapes_counterexample:
  "transformCommentsResponse 10000
     (JObj 20004 [(''items'', JArr 20003 [nested (Suc 10000)])]) (JNum 3) ''now''
   = Inl RangeError"
  using transformCommentsResponse_resolves
          [where r = "JObj 20004 [(''items'', JArr 20003 [nested (Suc 10000)])]"
             and depth = 10000 and dm = "JNum 3" and now = "''now''"]
        not_fits_nested [of 10000]
  by (simp add: source_array_def obj_array_def resolves_def)

text \<open>
  C8.  For \<^verbatim>\<open>null\<close> and for \<^verbatim>\<open>undefined\<close> the comment normalizer returns the fixed
  placeholder: id \<open>-1\<close>, username \<open>Unknown\<close>, content \<open>Error loading comment\<close>, no
  replies and no likes.  It never returns \<^verbatim>\<open>null\<close>: for every value that fits the call
  stack it returns a comment, and for the others it throws a RangeError.
\<close>

theorem transformComment_null:
  "transformComment depth JNull d now = Inr (placeholder d now)
   \<and> transformComment depth JUndefined d now = Inr (placeholder d now)
   \<and> id_of (attrs (placeholder d now)) = JNum (- 1)
   \<and> username (attrs (placeholder d now)) = JStr ''Unknown''
   \<and> content (attrs (placeholder d now)) = JStr ''Error loading comment''
   \<and> replies (placeholder d now) = []
   \<and> likes_count (attrs (placeholder d now)) = JNum 0
   \<and> (if fits depth v then (\<exists>c. transformComment depth v d now = Inr c)
       else transformComment depth v d now = Inl RangeError)"
proof -
  have "transformComment depth JNull d now = Inr (placeholder d now)"
    and "transformComment depth JUndefined d now = Inr (placeholder d now)"
    by (simp_all add: transformComment.simps)
  moreover have "if fits depth v then (\<exists>c. transformComment depth v d now = Inr c)
       else transformComment depth v d now = Inl RangeError"
    using transformComment_fits [of depth v d now] by auto
  ultimately show ?thesis
    by (simp add: placeholder_def)
qed

theorem transformComment_null_witness:
  "transformComment 0 JNull (JNum 3) ''now'' = Inr (placeholder (JNum 3) ''now'')
   \<and> id_of (attrs (placeholder (JNum 3) ''now'')) = JNum (- 1)
   \<and> (\<exists>c. transformComment 0 (JObj 1 [(''id'', JNum 5)]) (JNum 3) ''now'' = Inr c)"
  using transformComment_null
          [where depth = 0 and d = "JNum 3" and now = "''now''" and v = "JObj 1 [(''id'', JNum 5)]"]
  by (simp add: fits.simps opt_chain_def)

text \<open>
  C6.  A response \<^verbatim>\<open>{items: [c]}\<close> without \<^verbatim>\<open>total\<close> has one item, and the normalizer
  gives it the total \<open>0\<close>, where the other shapes default to the length of the array.
\<close>

theorem items_shape_total_default:
  "map_sum id (\<lambda>res. (length (items res), total res, pages res, current_page res))
     (transformCommentsResponse 1000
        (JObj 1 [(''items'', JArr 2 [JObj 3 [(''id'', JNum 5)]])]) (JNum 3) ''now'')
   = Inr (1, JNum 0, JNum 1, JNum 1)
   \<and> map_sum id (\<lambda>res. (length (items res), total res, pages res, current_page res))
     (transformCommentsResponse 1000
        (JObj 1 [(''comments'', JArr 2 [JObj 3 [(''id'', JNum 5)]])]) (JNum 3) ''now'')
   = Inr (1, JNum 1, JNum 1, JNum 1)"
  by (simp add: transformCommentsResponse_def and_isArray_def map_transform_JArr
      js_or_def fits.simps opt_chain_def)

section \<open>Adding a comment: authentication and the comment count\<close>

text \<open>
  C9.  Without authentication \<^verbatim>\<open>addComment\<close> leaves the tree (and all of the state but
  the error) as it is, issues no request, and sets the error to the message that asks for
  a login; this for a root comment and for a reply.
\<close>

theorem addComment_unauthenticated:
  assumes "\<not> isAuthenticated env"
  shows "addComment env st text parentId net =
           (st \<lparr> error := Some ''You must be logged in to add comments'' \<rparr>, [], None)
         \<and> comments (fst (addComment env st text parentId net)) = comments st
         \<and> fst (snd (addComment env st text parentId net)) = []
         \<and> error (fst (addComment env st text parentId net)) =
             Some ''You must be logged in to add comments''"
  using assms by (simp add: addComment_def)

theorem addComment_unauthenticated_witness:
  "\<not> isAuthenticated anonymous_env
   \<and> comments (fst (addComment anonymous_env (sample_state [sample_comment 1 False 0 []]) ''Hello''
        (JNum 1) (Response True (Parsed (JObj 8 [(''id'', JNum 42)])))))
     = [sample_comment 1 False 0 []]
   \<and> fst (snd (addComment anonymous_env (sample_state [sample_comment 1 False 0 []]) ''Hello''
        (JNum 1) (Response True (Parsed (JObj 8 [(''id'', JNum 42)]))))) = []
   \<and> error (fst (addComment anonymous_env (sample_state [sample_comment 1 False 0 []]) ''Hello''
        JNull (Rejected ''offline'')))
     = Some ''You must be logged in to add comments''"
proof -
  have a: "\<not> isAuthenticated anonymous_env"
    by (simp add: anonymous_env_def sample_env_def)
  show ?thesis
    using a addComment_unauthenticated [OF a]
    by (simp add: sample_state_def)
qed

text \<open>
  C10.  A root comment (\<^verbatim>\<open>!parentId\<close>) raises the total by one when it is inserted
  optimistically, and the revert of a failed request lowers it by one again.  A reply
  changes neither the total nor the page count nor the current page, when inserted and
  when reverted.
\<close>

theorem addComment_total:
  assumes "isAuthenticated env"
  shows "(\<not> truthy parentId \<longrightarrow>
            totalComments (addComment_pending env st text parentId) = totalComments st + 1
            \<and> totalComments (fst (addComment env st text parentId (Response False body)))
                = totalComments (addComment_pending env st text parentId) - 1)
         \<and> (truthy parentId \<longrightarrow>
            totalComments (addComment_pending env st text parentId) = totalComments st
            \<and> totalPages (addComment_pending env st text parentId) = totalPages st
            \<and> currentPage (addComment_pending env st text parentId) = currentPage st
            \<and> totalComments (fst (addComment env st text parentId (Response False body)))
                = totalComments st
            \<and> totalPages (fst (addComment env st text parentId (Response False body)))
                = totalPages st
            \<and> currentPage (fst (addComment env st text parentId (Response False body)))
                = currentPage st)"
  using assms
  by (simp add: addComment_def addComment_pending_def insertOptimistic_def
      removeOptimistic_def Let_def)

theorem addComment_total_witness:
  "isAuthenticated sample_env
   \<and> totalComments (addComment_pending sample_env (sample_state []) ''Hello'' JNull) = 3
   \<and> totalComments (fst (addComment sample_env (sample_state []) ''Hello'' JNull
        (Response False (Parsed JNull)))) = 2
   \<and> totalComments (addComment_pending sample_env (sample_state [sample_comment 1 False 0 []])
        ''Hello'' (JNum 1)) = 2
   \<and> totalComments (fst (addComment sample_env (sample_state [sample_comment 1 False 0 []])
        ''Hello'' (JNum 1) (Response False (Parsed JNull)))) = 2"
proof -
  have a: "isAuthenticated sample_env"
    by (simp add: sample_env_def)
  show ?thesis
    using a
      addComment_total [OF a, of JNull "sample_state []" "''Hello''" "Parsed JNull"]
      addComment_total [OF a, of "JNum 1" "sample_state [sample_comment 1 False 0 []]" "''Hello''"
        "Parsed JNull"]
    by (simp add: sample_state_def)
qed

section \<open>Nodes of a tree\<close>

lemma all_nodes_simps [simp]:
  "all_nodes [] = []"
  "all_nodes (c # cs) = nodes_of c @ all_nodes cs"
  "all_nodes (xs @ ys) = all_nodes xs @ all_nodes ys"
  by (simp_all add: all_nodes_def)

lemma nodes_of_Comment [simp]: "nodes_of (Comment f rs) = f # all_nodes rs"
  by (simp add: all_nodes_def)

declare nodes_of.simps [simp del]

lemma nodes_of_eq: "nodes_of c = attrs c # all_nodes (replies c)"
  by (cases c) simp

lemma list_all_all_nodes:
  "list_all P (all_nodes cs) \<longleftrightarrow> (\<forall>c \<in> set cs. list_all P (nodes_of c))"
  by (induction cs) auto

lemma list_all_nodes_map:
  "list_all P (all_nodes (map h cs)) \<longleftrightarrow> (\<forall>c \<in> set cs. list_all P (nodes_of (h c)))"
  by (induction cs) auto

lemma list_all_nodes_filter:
  "list_all P (all_nodes cs) \<Longrightarrow> list_all P (all_nodes (filter Q cs))"
  by (simp add: list_all_all_nodes)

lemma list_all_nodes_replace:
  "list_all P (all_nodes cs) \<Longrightarrow> list_all P (nodes_of n) \<Longrightarrow>
     list_all P (all_nodes (map (\<lambda>x. if Q x then n else x) cs))"
  by (simp add: list_all_nodes_map) (simp add: list_all_all_nodes)

lemma list_all_nodes_parent:
  assumes "list_all P (all_nodes cs)"
    and "\<And>c. c \<in> set cs \<Longrightarrow> list_all P (all_nodes (replies c)) \<Longrightarrow> list_all P (all_nodes (g c))"
  shows "list_all P (all_nodes (map (\<lambda>c. if Q c then Comment (attrs c) (g c) else c) cs))"
proof -
  have "list_all P (nodes_of (if Q c then Comment (attrs c) (g c) else c))" if "c \<in> set cs" for c
  proof -
    from assms(1) that have "list_all P (nodes_of c)"
      by (simp add: list_all_all_nodes)
    then have "P (attrs c)" and "list_all P (all_nodes (replies c))"
      by (simp_all add: nodes_of_eq [of c])
    with assms(2) [OF that] \<open>list_all P (nodes_of c)\<close> show ?thesis by simp
  qed
  then show ?thesis by (simp add: list_all_nodes_map)
qed

section \<open>The flag and the sign of the id\<close>

lemma flags_insert:
  assumes "tree_flags_agree (comments st)" and "list_all flag_agrees (nodes_of c)"
  shows "tree_flags_agree (comments (insertOptimistic st c parentId))"
  using assms
  by (simp add: insertOptimistic_def tree_flags_agree_def list_all_nodes_parent)

lemma flags_remove:
  assumes "tree_flags_agree (comments st)"
  shows "tree_flags_agree (comments (removeOptimistic st c parentId))"
  using assms
  by (simp add: removeOptimistic_def tree_flags_agree_def list_all_nodes_parent
      list_all_nodes_filter)

lemma flags_replace:
  assumes "tree_flags_agree (comments st)" and "list_all flag_agrees (nodes_of n)"
  shows "tree_flags_agree (comments (replaceOptimistic st c n parentId))"
  using assms
  by (simp add: replaceOptimistic_def tree_flags_agree_def list_all_nodes_parent
      list_all_nodes_replace)

lemma flags_optimistic:
  "0 < now_ms env \<Longrightarrow> list_all flag_agrees (nodes_of (optimisticComment env text parentId))"
  by (simp add: optimisticComment_def flag_agrees_def id_negative_def id_positive_def)

lemma flags_merge:
  assumes "id_positive (attrs t)" and "tree_flags_agree (replies t)"
  shows "list_all flag_agrees (nodes_of (mergeComment c t))"
  using assms
  by (auto simp: mergeComment_def spread_def tree_flags_agree_def flag_agrees_def
      id_negative_def id_positive_def js_or_def split: option.splits jsval.splits)

text \<open>
  C4.  Let the flag and the sign of the id agree on every node of the tree, and let the
  clock be positive.  Then they agree on every node after the optimistic insert, and after
  \<^verbatim>\<open>addComment\<close> has finished, whatever the outcome of the request, provided that a
  normalized comment of the server has a positive id and replies on which they agree.
\<close>

theorem addComment_flags:
  assumes "tree_flags_agree (comments st)"
    and "0 < now_ms env"
    and "case normalized_reply env net of
           Some t \<Rightarrow> id_positive (attrs t) \<and> tree_flags_agree (replies t)
         | None \<Rightarrow> True"
  shows "tree_flags_agree (comments (addComment_pending env st text parentId))
         \<and> tree_flags_agree (comments (fst (addComment env st text parentId net)))"
proof -
  let ?c = "optimisticComment env text parentId"
  let ?p = "addComment_pending env st text parentId"
  have c: "list_all flag_agrees (nodes_of ?c)"
    using assms(2) by (rule flags_optimistic)
  have p: "tree_flags_agree (comments ?p)"
    using flags_insert [of "st \<lparr> error := None \<rparr>" ?c parentId] assms(1) c
    by (simp add: addComment_pending_def)
  have r: "tree_flags_agree (comments (removeOptimistic ?p ?c parentId))"
    using p by (rule flags_remove)
  have m: "tree_flags_agree (comments (replaceOptimistic ?p ?c (mergeComment ?c t) parentId))"
    if "normalized_reply env net = Some t" for t
    using assms(3) that p by (simp add: flags_replace flags_merge)
  have "tree_flags_agree (comments (fst (addComment env st text parentId net)))"
  proof (cases net)
    case (Rejected msg)
    with assms(1) p show ?thesis by (simp add: addComment_def Let_def)
  next
    case (Response ok body)
    show ?thesis
    proof (cases body)
      case (Unparsable msg)
      with Response assms(1) p r show ?thesis by (simp add: addComment_def Let_def)
    next
      case (Parsed responseData)
      show ?thesis
      proof (cases "normalized_reply env net")
        case None
        with Response Parsed assms(1) p r show ?thesis
          by (simp add: addComment_def Let_def normalized_reply_def split: if_splits sum.splits)
      next
        case (Some t)
        with Response Parsed assms(1) p r m [OF Some] show ?thesis
          by (simp add: addComment_def Let_def normalized_reply_def split: if_splits sum.splits)
      qed
    qed
  qed
  with p show ?thesis by simp
qed

lemma transform_sample_reply:
  "normalizeReply sample_env sample_reply =
     Inr (Comment \<lparr> id_of = JNum 42, material_id = JNum 3, user_id = JNum 9,
       username = JStr ''alice'', parent_id = JNull, content = JStr ''Hello!'',
       likes_count = JNum 0, created_at = JStr ''2024-02-02T00:00:05.000Z'',
       updated_at = JStr ''2024-02-02T00:00:05.000Z'', is_optimistic = None,
       is_liked = JBool False, user_avatar = JNull \<rparr> [])"
  by (simp add: normalizeReply_def sample_reply_def rawComment_def opt_chain_def js_or_def
      transformComment.simps sample_env_def)

theorem addComment_flags_witness:
  "tree_flags_agree (comments (sample_state [sample_comment 1 False 0 []]))
   \<and> 0 < now_ms sample_env
   \<and> tree_flags_agree (comments (addComment_pending sample_env
        (sample_state [sample_comment 1 False 0 []]) ''Hello'' JNull))
   \<and> tree_flags_agree (comments (fst (addComment sample_env
        (sample_state [sample_comment 1 False 0 []]) ''Hello'' JNull
        (Response True (Parsed sample_reply)))))"
proof -
  have a: "tree_flags_agree (comments (sample_state [sample_comment 1 False 0 []]))"
    by (simp add: sample_state_def sample_comment_def tree_flags_agree_def flag_agrees_def
        id_negative_def id_positive_def)
  have b: "0 < now_ms sample_env"
    by (simp add: sample_env_def)
  have c: "case normalized_reply sample_env (Response True (Parsed sample_reply)) of
             Some t \<Rightarrow> id_positive (attrs t) \<and> tree_flags_agree (replies t)
           | None \<Rightarrow> True"
    by (simp add: normalized_reply_def transform_sample_reply id_positive_def
        tree_flags_agree_def)
  show ?thesis
    using a b addComment_flags [OF a b c, of "''Hello''" JNull] by simp
qed

theorem addComment_flags_counterexample:
  "tree_flags_agree (comments (sample_state []))
   \<and> 0 < now_ms sample_env
   \<and> \<not> tree_flags_agree (comments (fst (addComment sample_env (sample_state []) ''Hello'' JNull
          (Response True (Parsed (JObj 8 [(''content'', JStr ''Hello'')]))))))"
  by (simp add: sample_state_def sample_env_def tree_flags_agree_def addComment_def
      addComment_pending_def insertOptimistic_def replaceOptimistic_def optimisticComment_def
      mergeComment_def spread_def normalizeReply_def rawComment_def opt_chain_def js_or_def
      transformComment.simps strict_eq_def flag_agrees_def
      id_negative_def id_positive_def Let_def)

section \<open>Replies to nested comments, the merged record, the like status read\<close>

text \<open>
  C1.  Comment 2 is a reply of the root comment 1.  A reply to comment 2 is not inserted:
  the optimistic update looks for the parent among the roots only, so the tree stays as
  it is, and it still is when the server has accepted the reply.
\<close>

theorem nested_parent_not_found:
  "comments (addComment_pending sample_env
      (sample_state [sample_comment 1 False 0 [sample_comment 2 False 0 []]]) ''Hi'' (JNum 2))
     = [sample_comment 1 False 0 [sample_comment 2 False 0 []]]
   \<and> comments (fst (addComment sample_env
      (sample_state [sample_comment 1 False 0 [sample_comment 2 False 0 []]]) ''Hi'' (JNum 2)
      (Response True (Parsed sample_reply))))
     = [sample_comment 1 False 0 [sample_comment 2 False 0 []]]
   \<and> comments (addComment_pending sample_env
      (sample_state [sample_comment 1 False 0 [sample_comment 2 False 0 []]]) ''Hi'' (JNum 1))
     = [sample_comment 1 False 0
          [sample_comment 2 False 0 [], optimisticComment sample_env ''Hi'' (JNum 1)]]"
  by (simp add: addComment_def addComment_pending_def insertOptimistic_def
      replaceOptimistic_def sample_state_def sample_comment_def transform_sample_reply
      strict_eq_def Let_def)

text \<open>
  C2.  The server answers \<^verbatim>\<open>Hello\<close> with a comment of its own: id 42, username
  \<^verbatim>\<open>alice\<close>, content \<^verbatim>\<open>Hello!\<close> and its own creation time.  The merged record takes the
  id of the server and drops the flag, but keeps the username, the content and the times
  of the optimistic comment.
\<close>

theorem merged_keeps_optimistic_fields:
  "map_option (\<lambda>t. (id_of (attrs t), username (attrs t), content (attrs t), created_at (attrs t)))
     (normalized_reply sample_env (Response True (Parsed sample_reply)))
     = Some (JNum 42, JStr ''alice'', JStr ''Hello!'', JStr ''2024-02-02T00:00:05.000Z'')
   \<and> map_option
       (\<lambda>c. (id_of (attrs c), username (attrs c), content (attrs c), created_at (attrs c),
             is_optimistic (attrs c)))
       (snd (snd (addComment sample_env (sample_state []) ''Hello'' JNull
          (Response True (Parsed sample_reply)))))
     = Some (JNum 42, JStr ''ann'', JStr ''Hello'', JStr ''2024-02-02T00:00:00.000Z'', Some False)"
  by (simp add: normalized_reply_def addComment_def transform_sample_reply mergeComment_def
      spread_def optimisticComment_def session_identity_def opt_chain_def
      js_or_def Let_def)
    (simp add: sample_env_def opt_chain_def)

text \<open>
  C3.  Comment 2 is the second root and is liked.  The status read for it is
  \<^verbatim>\<open>false\<close>: the search returns what it finds below the first root.  The optimistic
  update then likes the comment once more and raises its count from 1 to 2.
\<close>

theorem liked_status_misread:
  "findLikedStatus [sample_comment 1 False 0 [], sample_comment 2 True 1 []] (JNum 2) = False
   \<and> map_option (\<lambda>c. is_liked (attrs c))
       (findComment [sample_comment 1 False 0 [], sample_comment 2 True 1 []] (JNum 2))
     = Some (JBool True)
   \<and> comments (toggle_pending
       (sample_state [sample_comment 1 False 0 [], sample_comment 2 True 1 []]) (JNum 2))
     = [sample_comment 1 False 0 [], sample_comment 2 True 2 []]"
  by (simp add: toggle_pending_def sample_state_def sample_comment_def array_truthy_def
      not_null_def updateCommentLikes.simps strict_eq_def js_add_def Let_def)

section \<open>Likes\<close>

declare updateCommentLikes.simps [simp del]

lemma bump_id [simp]: "id_of (bump t inc f) = id_of f"
  by (simp add: bump_def)














lemmas run_defs =
  toggle_pending_def pending_toggle_def toggle_settle_def likePayload_def mergeLiked_def
  spread_def updateCommentLikes.simps updateCommentWithServerData.simps array_truthy_def
  not_null_def strict_eq_def js_add_def js_or_def opt_chain_def transformComment.simps
  sample_state_def sample_comment_def Let_def



text \<open>
  Each of the three conditions is needed.  Without the order of the events: on a sound tree, two
  clicks on comment 1 followed by the response to the first, which is not \<^verbatim>\<open>ok\<close>; the
  revert takes the like away that the second click has already taken away.
\<close>

lemma interleaved_toggles_negative:
  "tree_sound (comments (sample_state [sample_comment 1 False 0 []]))
   \<and> merges_sound (run sample_env (sample_state [sample_comment 1 False 0 []]) []
        [Click (JNum 1), Click (JNum 1), Settle 0 (Response False (Parsed (JObj 9 [])))])
   \<and> map (\<lambda>(origin, s). (origin, map likes_count (all_nodes (comments s))))
        (run sample_env (sample_state [sample_comment 1 False 0 []]) []
          [Click (JNum 1), Click (JNum 1), Settle 0 (Response False (Parsed (JObj 9 [])))])
     = [(Optimistic, [JNum 1]), (Optimistic, [JNum 0]), (Settled, [JNum (- 1)])]"
  by (simp add: run_defs merges_sound_def tree_sound_def likes_sound_def sample_env_def)

text \<open>
  Without distinct ids: every node with the id is updated with the status read from the
  first of them.
\<close>

lemma duplicate_ids_negative:
  "list_all likes_sound
     (all_nodes (comments (sample_state [sample_comment 1 True 1 [], sample_comment 1 False 0 []])))
   \<and> map (\<lambda>(origin, s). (origin, map likes_count (all_nodes (comments s))))
        (run sample_env (sample_state [sample_comment 1 True 1 [], sample_comment 1 False 0 []]) []
          [Click (JNum 1)])
     = [(Optimistic, [JNum 0, JNum (- 1)])]"
  by (simp add: run_defs likes_sound_def sample_env_def)

text \<open>
  Without a sound tree after a merge: the server says that comment 1 is liked and gives no
  count, the merged comment is liked with the count 0, and the next toggle brings the
  count to \<open>-1\<close>.
\<close>

lemma unsound_merge_negative:
  "tree_sound (comments (sample_state [sample_comment 1 False 0 []]))
   \<and> serialized [Click (JNum 1), Settle 0 (Response True (Parsed sample_liked_reply)),
                 Click (JNum 1)]
   \<and> map (\<lambda>(origin, s).
            (origin, map (\<lambda>f. (likes_count f, is_liked f)) (all_nodes (comments s))))
        (run sample_env (sample_state [sample_comment 1 False 0 []]) []
          [Click (JNum 1), Settle 0 (Response True (Parsed sample_liked_reply)), Click (JNum 1)])
     = [(Optimistic, [(JNum 1, JBool True)]), (Merged, [(JNum 0, JBool True)]),
        (Optimistic, [(JNum (- 1), JBool False)])]"
  by (simp add: run_defs sample_liked_reply_def tree_sound_def likes_sound_def)
    (simp add: sample_env_def)

end
